theory Spec2Isabelle
  imports Main "HOL-Library.Sublist"
begin

section \<open>Python strings\<close>

text \<open>
  A Python \<open>str\<close> is modelled as a \<open>string\<close> whose characters stand for the code
  points below 256 (Latin-1), so that the non-breaking space U+00A0 of the source is
  \<open>CHR 0xA0\<close>. \<open>is_space\<close> is \<open>str.isspace\<close> on that range: it is the set that
  \<open>str.strip()\<close>, \<open>str.split()\<close> and the regular expression class \<open>\<bsol>s\<close> share.
\<close>

definition is_space :: "char \<Rightarrow> bool" where
  "is_space c = (of_char c \<in> set [9, 10, 11, 12, 13, 28, 29, 30, 31, 32, 133, 160 :: nat])"

definition is_digit :: "char \<Rightarrow> bool" where
  "is_digit c = (c \<in> set ''0123456789'')"

definition is_upper_AZ :: "char \<Rightarrow> bool" where
  "is_upper_AZ c = (c \<in> set ''ABCDEFGHIJKLMNOPQRSTUVWXYZ'')"

definition upper_chars :: string where
  "upper_chars = ''ABCDEFGHIJKLMNOPQRSTUVWXYZ'' @
     [CHR 0xC0, CHR 0xC1, CHR 0xC2, CHR 0xC3, CHR 0xC4, CHR 0xC5, CHR 0xC6, CHR 0xC7,
      CHR 0xC8, CHR 0xC9, CHR 0xCA, CHR 0xCB, CHR 0xCC, CHR 0xCD, CHR 0xCE, CHR 0xCF,
      CHR 0xD0, CHR 0xD1, CHR 0xD2, CHR 0xD3, CHR 0xD4, CHR 0xD5, CHR 0xD6,
      CHR 0xD8, CHR 0xD9, CHR 0xDA, CHR 0xDB, CHR 0xDC, CHR 0xDD, CHR 0xDE]"

definition lower_chars :: string where
  "lower_chars = ''abcdefghijklmnopqrstuvwxyz'' @
     [CHR 0xE0, CHR 0xE1, CHR 0xE2, CHR 0xE3, CHR 0xE4, CHR 0xE5, CHR 0xE6, CHR 0xE7,
      CHR 0xE8, CHR 0xE9, CHR 0xEA, CHR 0xEB, CHR 0xEC, CHR 0xED, CHR 0xEE, CHR 0xEF,
      CHR 0xF0, CHR 0xF1, CHR 0xF2, CHR 0xF3, CHR 0xF4, CHR 0xF5, CHR 0xF6,
      CHR 0xF8, CHR 0xF9, CHR 0xFA, CHR 0xFB, CHR 0xFC, CHR 0xFD, CHR 0xFE]"

definition lower_char :: "char \<Rightarrow> char" where
  "lower_char c = (case map_of (zip upper_chars lower_chars) c of Some d \<Rightarrow> d | None \<Rightarrow> c)"

text \<open>\<open>s.lower()\<close>\<close>

definition lower :: "string \<Rightarrow> string" where
  "lower s = map lower_char s"

text \<open>\<open>s.strip()\<close>\<close>

definition strip :: "string \<Rightarrow> string" where
  "strip s = rev (dropWhile is_space (rev (dropWhile is_space s)))"

text \<open>\<open>s.startswith(p)\<close> and \<open>s.endswith(p)\<close>\<close>

definition startswith :: "string \<Rightarrow> string \<Rightarrow> bool" where
  "startswith s p = (take (length p) s = p)"

definition endswith :: "string \<Rightarrow> string \<Rightarrow> bool" where
  "endswith s p = (length p \<le> length s \<and> drop (length s - length p) s = p)"

text \<open>\<open>sub in s\<close>: a left-to-right search for the first position where \<open>sub\<close> starts.\<close>

fun str_in :: "string \<Rightarrow> string \<Rightarrow> bool" where
  "str_in sub [] = (sub = [])"
| "str_in sub (c # cs) = (startswith (c # cs) sub \<or> str_in sub cs)"

text \<open>\<open>sep.join(parts)\<close>\<close>

fun str_join :: "string \<Rightarrow> string list \<Rightarrow> string" where
  "str_join sep [] = []"
| "str_join sep [p] = p"
| "str_join sep (p # q # ps) = p @ sep @ str_join sep (q # ps)"

text \<open>
  \<open>s.split()\<close>: the maximal runs of non-whitespace characters, in order. \<open>cur\<close> is the
  run being read.
\<close>

fun split_from :: "string \<Rightarrow> string \<Rightarrow> string list" where
  "split_from cur [] = (if cur = [] then [] else [cur])"
| "split_from cur (c # cs) =
     (if is_space c then (if cur = [] then split_from [] cs else cur # split_from [] cs)
      else split_from (cur @ [c]) cs)"

definition split :: "string \<Rightarrow> string list" where
  "split s = split_from [] s"

text \<open>\<open>s.replace('\<bsol>xa0', ' ')\<close>\<close>

definition replace_nbsp :: "string \<Rightarrow> string" where
  "replace_nbsp s = map (\<lambda>c. if c = CHR 0xA0 then CHR '' '' else c) s"

section \<open>Heading-text classification\<close>

text \<open>\<open>map_category\<close> (lines 143 to 157).\<close>

definition map_category :: "string \<Rightarrow> string" where
  "map_category title =
     (let t = lower title
      in if str_in ''university'' t \<and> str_in ''courses'' t then ''university''
         else if str_in ''required'' t \<and> str_in ''courses'' t then ''required''
         else if str_in ''core'' t \<and> str_in ''elective'' t then ''core''
         else if str_in ''area'' t \<and> str_in ''elective'' t then ''area''
         else if str_in ''free'' t \<and> str_in ''elective'' t then ''free''
         else if t = ''total'' then ''university''
         else ''unknown'')"

section \<open>Parsed documents\<close>

text \<open>
  A parsed document is the tree that \<open>BeautifulSoup(resp.text, 'lxml')\<close> returns: a
  \<open>NavigableString\<close> carries text, a \<open>Tag\<close> has a name, its attributes and its
  children. The root of a document is the \<open>BeautifulSoup\<close> object itself, a tag named
  \<open>[document]\<close>. Comments and the other special string classes are not modelled.

  The library navigates by object identity and parent pointers. Here an element of a
  document is the pair of its position (the child indices from the root) and its
  subtree; \<open>walk\<close> lists the elements of a subtree in document order.
\<close>

datatype node = NavigableString string | Tag string "(string \<times> string) list" "node list"

type_synonym path = "nat list"
type_synonym elem = "path \<times> node"

fun walk :: "path \<Rightarrow> node \<Rightarrow> elem list"
  and walk_children :: "path \<Rightarrow> nat \<Rightarrow> node list \<Rightarrow> elem list" where
  "walk p (NavigableString s) = [(p, NavigableString s)]"
| "walk p (Tag n a cs) = (p, Tag n a cs) # walk_children p 0 cs"
| "walk_children p i [] = []"
| "walk_children p i (c # cs) = walk (p @ [i]) c @ walk_children p (Suc i) cs"

fun is_tag :: "node \<Rightarrow> bool" where
  "is_tag (Tag n a cs) = True"
| "is_tag (NavigableString s) = False"

text \<open>\<open>getattr(x, 'name', None) == n\<close>: a string has no name.\<close>

fun has_name :: "string \<Rightarrow> node \<Rightarrow> bool" where
  "has_name n (Tag m a cs) = (m = n)"
| "has_name n (NavigableString s) = False"

text \<open>\<open>tag.get(k)\<close>\<close>

fun get_attr :: "node \<Rightarrow> string \<Rightarrow> string option" where
  "get_attr (Tag m a cs) k = map_of a k"
| "get_attr (NavigableString s) k = None"

text \<open>The elements below \<open>e\<close>, in document order: what \<open>e.descendants\<close> iterates.\<close>

definition descendants :: "elem \<Rightarrow> elem list" where
  "descendants e = tl (walk (fst e) (snd e))"

text \<open>\<open>e.find_all(n)\<close> and \<open>e.find(n)\<close>, with their positions.\<close>

definition find_all_elems :: "string \<Rightarrow> elem \<Rightarrow> elem list" where
  "find_all_elems n e = filter (\<lambda>x. has_name n (snd x)) (descendants e)"

definition find_elem :: "string \<Rightarrow> elem \<Rightarrow> elem option" where
  "find_elem n e = List.find (\<lambda>x. has_name n (snd x)) (descendants e)"

text \<open>The same on a subtree alone, where the caller only reads below the result.\<close>

definition find_all :: "string \<Rightarrow> node \<Rightarrow> node list" where
  "find_all n x = map snd (find_all_elems n ([], x))"

text \<open>
  \<open>tag.string\<close>: the text of a tag whose only child is a string, or whose only child
  is a tag that has such a \<open>string\<close>; \<open>None\<close> otherwise.
\<close>

fun tag_string :: "node \<Rightarrow> string option" where
  "tag_string (NavigableString s) = Some s"
| "tag_string (Tag n a [c]) = tag_string c"
| "tag_string (Tag n a cs) = None"

text \<open>
  \<open>e.find(n, string=lambda s: s and pred(s))\<close>: the first tag named \<open>n\<close> below \<open>e\<close>
  whose \<open>string\<close> is there, is not empty and satisfies \<open>pred\<close>.
\<close>

definition string_matches :: "(string \<Rightarrow> bool) \<Rightarrow> node \<Rightarrow> bool" where
  "string_matches pred x = (case tag_string x of None \<Rightarrow> False | Some s \<Rightarrow> s \<noteq> [] \<and> pred s)"

definition find_with_string :: "string \<Rightarrow> (string \<Rightarrow> bool) \<Rightarrow> elem \<Rightarrow> elem option" where
  "find_with_string n pred e =
     List.find (\<lambda>x. has_name n (snd x) \<and> string_matches pred (snd x)) (descendants e)"

text \<open>The strings below a node, in document order, the node itself included.\<close>

definition strings :: "node \<Rightarrow> string list" where
  "strings x = concat (map (\<lambda>y. case snd y of NavigableString s \<Rightarrow> [s] | Tag n a cs \<Rightarrow> [])
                          (walk [] x))"

text \<open>\<open>x.get_text()\<close> and \<open>x.get_text(sep, strip=True)\<close>\<close>

definition get_text :: "node \<Rightarrow> string" where
  "get_text x = concat (strings x)"

definition get_text_strip :: "string \<Rightarrow> node \<Rightarrow> string" where
  "get_text_strip sep x = str_join sep (filter (\<lambda>s. s \<noteq> []) (map strip (strings x)))"

text \<open>The element at a position of the document.\<close>

definition elem_at :: "node \<Rightarrow> path \<Rightarrow> elem option" where
  "elem_at soup p = List.find (\<lambda>x. fst x = p) (walk [] soup)"

text \<open>\<open>e.parent\<close>; the root has none.\<close>

definition parent :: "node \<Rightarrow> elem \<Rightarrow> elem option" where
  "parent soup e = (if fst e = [] then None else elem_at soup (butlast (fst e)))"

text \<open>\<open>e.parents\<close>: the ancestors of \<open>e\<close>, the nearest first.\<close>

definition parents :: "node \<Rightarrow> elem \<Rightarrow> elem list" where
  "parents soup e = List.map_filter (elem_at soup) (rev (butlast (prefixes (fst e))))"

text \<open>\<open>e.find_parent(n)\<close>\<close>

definition find_parent :: "node \<Rightarrow> string \<Rightarrow> elem \<Rightarrow> elem option" where
  "find_parent soup n e = List.find (\<lambda>x. has_name n (snd x)) (parents soup e)"

text \<open>The children of the element at \<open>p\<close>, with their positions, from index \<open>i\<close> on.\<close>

fun children_from :: "path \<Rightarrow> nat \<Rightarrow> node list \<Rightarrow> elem list" where
  "children_from p i [] = []"
| "children_from p i (c # cs) = (p @ [i], c) # children_from p (Suc i) cs"

text \<open>\<open>e.next_siblings\<close>: strings and tags; \<open>e.find_next_siblings()\<close>: the tags of them.\<close>

definition next_siblings :: "node \<Rightarrow> elem \<Rightarrow> elem list" where
  "next_siblings soup e =
     (case parent soup e of
        Some (q, Tag n a cs) \<Rightarrow> drop (Suc (last (fst e))) (children_from q 0 cs)
      | _ \<Rightarrow> [])"

definition find_next_siblings :: "node \<Rightarrow> elem \<Rightarrow> elem list" where
  "find_next_siblings soup e = filter (\<lambda>x. is_tag (snd x)) (next_siblings soup e)"

text \<open>
  \<open>e.next_elements\<close>: everything after \<open>e\<close> in document order, its own descendants
  first. Iterating \<open>find_next()\<close> from \<open>e\<close> visits the tags of this list in order, and
  iterating \<open>find_next(n)\<close> the tags named \<open>n\<close>.
\<close>

definition next_elements :: "node \<Rightarrow> elem \<Rightarrow> elem list" where
  "next_elements soup e = tl (dropWhile (\<lambda>x. fst x \<noteq> fst e) (walk [] soup))"

definition next_tags :: "node \<Rightarrow> elem \<Rightarrow> elem list" where
  "next_tags soup e = filter (\<lambda>x. is_tag (snd x)) (next_elements soup e)"

definition find_next :: "node \<Rightarrow> string \<Rightarrow> elem \<Rightarrow> elem option" where
  "find_next soup n e = List.find (\<lambda>x. has_name n (snd x)) (next_elements soup e)"

section \<open>Label-scoped text extraction\<close>

text \<open>
  The loop of \<open>_extract_detail_text\<close> (lines 58 to 67) over the siblings that follow
  the label: \<open>parts\<close> and \<open>started\<close> are its two variables.
\<close>

fun collect_parts :: "string list \<Rightarrow> bool \<Rightarrow> node list \<Rightarrow> string list" where
  "collect_parts parts started [] = parts"
| "collect_parts parts started (sib # sibs) =
     (if has_name ''br'' sib then
        (if started then parts else collect_parts parts True sibs)
      else
        (case sib of
           NavigableString s \<Rightarrow> collect_parts (parts @ [strip s]) started sibs
         | Tag n a cs \<Rightarrow> collect_parts (parts @ [get_text_strip '' '' sib]) started sibs))"

text \<open>\<open>_extract_detail_text\<close> (lines 51 to 68).\<close>

definition extract_detail_text :: "node \<Rightarrow> string \<Rightarrow> string" where
  "extract_detail_text soup label =
     (case find_with_string ''span'' (str_in label) ([], soup) of
        None \<Rightarrow> []
      | Some span \<Rightarrow>
          strip (str_join '' '' (filter (\<lambda>p. p \<noteq> [])
            (collect_parts [] False (map snd (next_siblings soup span))))))"

section \<open>Rendering a tag\<close>

text \<open>
  \<open>str(tag)\<close> as the library's default formatter writes it: text with \<open>&\<close>, \<open><\<close> and
  \<open>>\<close> escaped, attribute values in double quotes (in single quotes when the value has
  a double quote and no single quote), and a childless void element as \<open><br/>\<close>.
\<close>

definition void_elements :: "string list" where
  "void_elements =
     [''area'', ''base'', ''br'', ''col'', ''embed'', ''hr'', ''img'', ''input'', ''keygen'',
      ''link'', ''menuitem'', ''meta'', ''param'', ''source'', ''track'', ''wbr'',
      ''basefont'', ''bgsound'', ''command'', ''frame'', ''image'', ''isindex'', ''nextid'',
      ''spacer'']"

definition escape_char :: "char \<Rightarrow> string" where
  "escape_char c =
     (if c = CHR ''&'' then ''&amp;'' else if c = CHR ''<'' then ''&lt;''
      else if c = CHR ''>'' then ''&gt;'' else [c])"

definition escape :: "string \<Rightarrow> string" where
  "escape s = concat (map escape_char s)"

definition quoted_attribute_value :: "string \<Rightarrow> string" where
  "quoted_attribute_value v =
     (if CHR 0x22 \<in> set v then
        (if CHR 0x27 \<in> set v
         then [CHR 0x22] @ concat (map (\<lambda>c. if c = CHR 0x22 then ''&quot;'' else [c]) v)
              @ [CHR 0x22]
         else [CHR 0x27] @ v @ [CHR 0x27])
      else [CHR 0x22] @ v @ [CHR 0x22])"

definition render_attr :: "string \<times> string \<Rightarrow> string" where
  "render_attr kv = '' '' @ fst kv @ ''='' @ quoted_attribute_value (escape (snd kv))"

fun to_html :: "node \<Rightarrow> string" and to_html_list :: "node list \<Rightarrow> string" where
  "to_html (NavigableString s) = escape s"
| "to_html (Tag n a cs) =
     (if cs = [] \<and> n \<in> set void_elements
      then ''<'' @ n @ concat (map render_attr a) @ ''/>''
      else ''<'' @ n @ concat (map render_attr a) @ ''>'' @ to_html_list cs
           @ ''</'' @ n @ ''>'')"
| "to_html_list [] = []"
| "to_html_list (c # cs) = to_html c @ to_html_list cs"

section \<open>The faculty registry\<close>

text \<open>\<open>FACULTY_COURSES\<close> (lines 19 to 36), in the order of the dictionary.\<close>

definition FACULTY_COURSES :: "(string \<times> string list) list" where
  "FACULTY_COURSES =
     [(''FENS'',
       [''CS201'', ''CS204'', ''DSA210'', ''EE200'', ''EE202'', ''ENS201'', ''ENS202'',
        ''ENS203'', ''ENS204'', ''ENS205'', ''ENS206'', ''ENS207'', ''ENS208'', ''ENS209'',
        ''ENS210'', ''ENS211'', ''ENS214'', ''ENS216'', ''MAT204'', ''MATH201'', ''MATH202'',
        ''MATH203'', ''MATH204'', ''NS201'', ''NS207'', ''NS213'', ''NS214'', ''NS216'',
        ''NS218'', ''PHYS211'']),
      (''FASS'',
       [''ANTH255'', ''ANTH326'', ''CULT368'', ''GEN341'', ''LIT212'', ''LIT359'', ''PHIL202'',
        ''PHIL321'', ''VA315'', ''ECON201'', ''ECON202'', ''ECON204'', ''HART292'', ''HART311'',
        ''HIST205'', ''HIST349'', ''PSY201'', ''PSY310'', ''PSY340'', ''IR201'', ''IR301'',
        ''IR391'', ''IR394'', ''POLS250'', ''POLS301'', ''SOC201'', ''SOC301'', ''HART213'',
        ''HART293'', ''VA201'', ''VA203'', ''VA312'']),
      (''SBS'',
       [''ACC201'', ''FIN301'', ''MGMT402'', ''MKTG301'', ''OPIM302'', ''ORG301'', ''ORG302''])]"

text \<open>\<open>get_faculty_for_course\<close> (lines 38 to 44).\<close>

definition get_faculty_for_course :: "string \<Rightarrow> string \<Rightarrow> string option" where
  "get_faculty_for_course major code =
     (let course_code = major @ code
      in map_option fst (List.find (\<lambda>fc. course_code \<in> set (snd fc)) FACULTY_COURSES))"

section \<open>The row parser\<close>

text \<open>
  A course record is the dictionary that \<open>parse_table\<close> builds (lines 194 to 205). The
  three detail keys are absent until \<open>row.update(details)\<close> adds them.
\<close>

record course =
  Major :: string
  Code :: string
  Course_Name :: string
  ECTS :: string
  Engineering :: int
  Basic_Science :: int
  SU_credit :: string
  Faculty :: string
  EL_Type :: string
  Faculty_Course :: string
  Prerequisites :: "string option"
  Corequisites :: "string option"
  Last_Offered_Term :: "string option"

datatype error = RequestError | IndexError

text \<open>\<open>has_asterisk\<close> of a row (lines 174 to 177), from the cells \<open>tr.find_all('td')\<close>.\<close>

definition has_asterisk :: "node list \<Rightarrow> bool" where
  "has_asterisk cells =
     (if length cells > 0 then
        (let first_cell_html = to_html (cells ! 0)
         in str_in ''<center>&nbsp;*&nbsp;</center>'' first_cell_html
            \<or> str_in ''<center> * </center>'' first_cell_html)
      else False)"

text \<open>The stored \<open>EL_Type\<close> (lines 185 to 193).\<close>

definition override_el_type :: "bool \<Rightarrow> string \<Rightarrow> string \<Rightarrow> string" where
  "override_el_type asterisk faculty_course category =
     (if asterisk \<and> faculty_course \<noteq> ''No'' \<and> category = ''required'' then ''core''
      else if asterisk \<and> faculty_course \<noteq> ''No'' \<and> category = ''area'' then ''area''
      else if asterisk \<and> faculty_course \<noteq> ''No'' \<and> category = ''free'' then ''free''
      else category)"

text \<open>
  One iteration of the loop of \<open>parse_table\<close> (lines 166 to 205): \<open>Inr None\<close> when the
  row is skipped, \<open>Inl IndexError\<close> where \<open>parts[0]\<close> would raise.
\<close>

definition parse_row :: "string \<Rightarrow> node \<Rightarrow> error + course option" where
  "parse_row category tr =
     (let tds = map (get_text_strip []) (find_all ''td'' tr)
      in if length tds \<ge> 5 \<and> tds ! 1 \<noteq> [] then
           (let code = replace_nbsp (tds ! 1);
                parts = split code
            in case parts of
                 [] \<Rightarrow> Inl IndexError
               | major # rest \<Rightarrow>
                   (let number = (if length parts > 1 then concat rest else []);
                        faculty_course =
                          (case get_faculty_for_course major number of
                             None \<Rightarrow> ''No'' | Some f \<Rightarrow> f);
                        el_type =
                          override_el_type (has_asterisk (find_all ''td'' tr))
                            faculty_course category
                    in Inr (Some \<lparr>Major = major, Code = number, Course_Name = tds ! 2,
                         ECTS = tds ! 3, Engineering = 0, Basic_Science = 0,
                         SU_credit = tds ! 4,
                         Faculty = (if length tds > 5 then tds ! 5 else []),
                         EL_Type = el_type, Faculty_Course = faculty_course,
                         Prerequisites = None, Corequisites = None,
                         Last_Offered_Term = None\<rparr>)))
         else Inr None)"

fun parse_rows :: "string \<Rightarrow> node list \<Rightarrow> course list \<Rightarrow> error + course list" where
  "parse_rows category [] rows = Inr rows"
| "parse_rows category (tr # trs) rows =
     (case parse_row category tr of
        Inl e \<Rightarrow> Inl e
      | Inr None \<Rightarrow> parse_rows category trs rows
      | Inr (Some row) \<Rightarrow> parse_rows category trs (rows @ [row]))"

text \<open>\<open>parse_table\<close> (lines 159 to 206).\<close>

definition parse_table :: "node \<Rightarrow> string \<Rightarrow> error + course list" where
  "parse_table table category =
     (let trs = find_all ''tr'' table
      in if trs = [] then Inr []
         else (let header = (length (find_all ''th'' (trs ! 0)) > 0)
               in parse_rows category (drop (if header then 1 else 0) trs) []))"

section \<open>The outside world\<close>

text \<open>
  The two library calls that reach outside the program are parameters of the model.
  \<open>get_soup url\<close> stands for the three lines \<open>resp = requests.get(url)\<close>,
  \<open>resp.raise_for_status()\<close>, \<open>soup = BeautifulSoup(resp.text, 'lxml')\<close>: the parsed
  document, or the exception the request raises. A document is a function of its
  address: fetching an address twice gives the same answer.
\<close>

record env =
  get_soup :: "string \<Rightarrow> error + node"
  urljoin :: "string \<Rightarrow> string \<Rightarrow> string"

definition BASE :: string where
  "BASE = ''https://suis.sabanciuniv.edu/prod/''"

text \<open>An exception leaves the enclosing function at once: the rest runs on a value.\<close>

definition on_ok :: "error + 'a \<Rightarrow> ('a \<Rightarrow> error + 'b) \<Rightarrow> error + 'b" where
  "on_ok r f = (case r of Inl e \<Rightarrow> Inl e | Inr v \<Rightarrow> f v)"

text \<open>\<open>crawl_list\<close> (lines 209 to 214).\<close>

definition crawl_list :: "env \<Rightarrow> string \<Rightarrow> string \<Rightarrow> error + course list" where
  "crawl_list w url category =
     on_ok (get_soup w url) (\<lambda>soup.
       case find_elem ''table'' ([], soup) of
         Some table \<Rightarrow> parse_table (snd table) category
       | None \<Rightarrow> Inr [])"

section \<open>Category classification\<close>

text \<open>
  The test that lets an anchor through (lines 230 to 233): the loop skips the anchor
  when this is false.
\<close>

definition is_zone_anchor :: "string \<Rightarrow> bool" where
  "is_zone_anchor name_attr =
     (endswith name_attr ''_CEL'' \<or> endswith name_attr ''_REQ'' \<or>
      endswith name_attr ''_AEL'' \<or> endswith name_attr ''_ARE'' \<or>
      startswith name_attr ''main'')"

text \<open>
  The category of a zone from its anchor (lines 243 to 258). In the second test the
  source writes \<open>name_attr.endswith('_CE2' or '_PHL')\<close>, and \<open>'_CE2' or '_PHL'\<close> is
  \<open>'_CE2'\<close>.
\<close>

definition classify_anchor :: "string \<Rightarrow> string \<Rightarrow> string" where
  "classify_anchor name_attr category_title =
     (if endswith name_attr ''_CEL'' \<or> str_in ''_COR'' name_attr \<or> str_in ''_CE1'' name_attr
         \<or> str_in ''_C1'' name_attr then ''core''
      else if endswith name_attr ''_CE2'' \<or> endswith name_attr ''_C2''
         \<or> str_in ''_MEL'' name_attr then ''extra_attribute''
      else if endswith name_attr ''_REQ'' then ''required''
      else if endswith name_attr ''_AEL'' \<or> endswith name_attr ''_ARE'' then ''area''
      else if endswith name_attr ''_FEL'' \<or> endswith name_attr ''_FRE'' then ''free''
      else if name_attr = ''UC_FENS'' \<or> name_attr = ''UC_FASS'' then ''university''
      else map_category category_title)"

text \<open>The category of an expand link of a zone from its area code (lines 361 to 376).\<close>

definition classify_link :: "string \<Rightarrow> string" where
  "classify_link area_code =
     (if str_in ''_CEL'' area_code \<or> str_in ''_COR'' area_code \<or> str_in ''_CE1'' area_code
         \<or> str_in ''_C1'' area_code then ''core''
      else if str_in ''_CE2'' area_code \<or> str_in ''_PHL'' area_code \<or> str_in ''_MEL'' area_code
         \<or> str_in ''_C2'' area_code then ''extra_attribute''
      else if str_in ''_REQ'' area_code then ''required''
      else if str_in ''_AEL'' area_code \<or> str_in ''_ARE'' area_code then ''area''
      else if str_in ''_FEL'' area_code \<or> str_in ''_FRE'' area_code then ''free''
      else if str_in ''UC_'' area_code then ''university''
      else if str_in ''_PHL'' area_code \<or> str_in ''_MEL'' area_code then ''required''
      else ''unknown'')"

text \<open>The category of a link in the sweep of the whole document (lines 392 to 406).\<close>

definition classify_fallback :: "string \<Rightarrow> string" where
  "classify_fallback area_code =
     (if str_in ''_CEL'' area_code \<or> str_in ''_COR'' area_code \<or> str_in ''_CE1'' area_code
         \<or> str_in ''_CE2'' area_code \<or> str_in ''_C1'' area_code \<or> str_in ''_C2'' area_code
      then ''core''
      else if str_in ''_REQ'' area_code then ''required''
      else if str_in ''_AEL'' area_code \<or> str_in ''_ARE'' area_code then ''area''
      else if str_in ''_FEL'' area_code \<or> str_in ''_FRE'' area_code then ''free''
      else if str_in ''UC_'' area_code then ''university''
      else if str_in ''_PHL'' area_code \<or> str_in ''_MEL'' area_code then ''required''
      else ''unknown'')"

text \<open>
  \<open>re.search(r'P_AREA=([^&]+)', href)\<close> and its \<open>group(1)\<close>: the leftmost place where
  \<open>P_AREA=\<close> is followed by a character other than \<open>&\<close>, and the run of such
  characters from there.
\<close>

fun area_search :: "string \<Rightarrow> string option" where
  "area_search [] = None"
| "area_search (c # cs) =
     (if startswith (c # cs) ''P_AREA='' \<and> takeWhile (\<lambda>x. x \<noteq> CHR ''&'') (drop 7 (c # cs)) \<noteq> []
      then Some (takeWhile (\<lambda>x. x \<noteq> CHR ''&'') (drop 7 (c # cs)))
      else area_search cs)"

text \<open>The title of a zone (lines 236 to 240).\<close>

definition category_title :: "node \<Rightarrow> elem \<Rightarrow> string" where
  "category_title soup a =
     (case (case parent soup a of None \<Rightarrow> None | Some par \<Rightarrow> find_elem ''b'' par) of
        Some b \<Rightarrow> get_text_strip [] (snd b)
      | None \<Rightarrow>
          (case find_next soup ''b'' a of
             Some b \<Rightarrow> get_text_strip [] (snd b)
           | None \<Rightarrow> []))"

section \<open>The table locator\<close>

text \<open>
  \<open>x.find('th', string=lambda s: s and (w1 in s or w2 in s ...))\<close> finds a header
  cell.
\<close>

definition has_header :: "string list \<Rightarrow> elem \<Rightarrow> bool" where
  "has_header ws x = (find_with_string ''th'' (\<lambda>s. list_ex (\<lambda>w. str_in w s) ws) x \<noteq> None)"

text \<open>
  \<open>re.match(r'^[A-Z]+\<bsol>s*\<bsol>d+', s)\<close>: capital letters, then any white space, then a
  digit. The three classes are disjoint, so the greedy match is the only one.
\<close>

definition course_code_match :: "string \<Rightarrow> bool" where
  "course_code_match s =
     (takeWhile is_upper_AZ s \<noteq> [] \<and>
      (case dropWhile is_space (dropWhile is_upper_AZ s) of
         [] \<Rightarrow> False
       | c # cs \<Rightarrow> is_digit c))"

text \<open>The test of one row in the first strategy (lines 280 to 286).\<close>

definition course_like_row :: "node \<Rightarrow> bool" where
  "course_like_row row =
     (let tds = find_all ''td'' row
      in length tds \<ge> 5 \<and> get_text_strip [] (tds ! 1) \<noteq> [] \<and>
         course_code_match (replace_nbsp (get_text_strip [] (tds ! 1))))"

text \<open>
  The first strategy (lines 264 to 288), over the tags that the ten calls of
  \<open>find_next()\<close> visit.
\<close>

fun proximity_scan :: "elem list \<Rightarrow> elem option" where
  "proximity_scan [] = None"
| "proximity_scan (current_element # rest) =
     (if has_name ''table'' (snd current_element) then
        (if has_header [''Course'', ''Name'', ''ECTS'', ''SU Credits''] current_element
         then Some current_element
         else (let rows = find_all ''tr'' (snd current_element)
               in if length rows > 1 \<and> list_ex course_like_row (drop 1 rows)
                  then Some current_element
                  else proximity_scan rest))
      else proximity_scan rest)"

text \<open>
  The second strategy (lines 291 to 307), over the tags that follow the enclosing
  table among its siblings.
\<close>

fun sibling_scan :: "elem list \<Rightarrow> elem option" where
  "sibling_scan [] = None"
| "sibling_scan (next_element # rest) =
     (if has_name ''tr'' (snd next_element) then
        (case find_elem ''table'' next_element of
           Some nested_table \<Rightarrow>
             (if has_header [''Course'', ''Name''] nested_table then Some nested_table
              else sibling_scan rest)
         | None \<Rightarrow> sibling_scan rest)
      else if has_name ''table'' (snd next_element) then
        (if has_header [''Course'', ''Name''] next_element then Some next_element
         else sibling_scan rest)
      else sibling_scan rest)"

text \<open>The three strategies in order (lines 261 to 324).\<close>

definition locate_table :: "node \<Rightarrow> elem \<Rightarrow> elem option" where
  "locate_table soup a =
     (case proximity_scan (take 10 (next_tags soup a)) of
        Some table \<Rightarrow> Some table
      | None \<Rightarrow>
          (case (case find_parent soup ''table'' a of
                   None \<Rightarrow> None
                 | Some parent_table \<Rightarrow> sibling_scan (find_next_siblings soup parent_table)) of
             Some table \<Rightarrow> Some table
           | None \<Rightarrow>
               (let all_tables =
                      take 20 (filter (\<lambda>x. has_name ''table'' (snd x)) (next_elements soup a))
                in List.find (has_header [''Course'', ''Name'', ''ECTS'']) all_tables)))"

section \<open>Expand links\<close>

text \<open>
  A link is kept as its \<open>href\<close>, the only thing the program reads of it. \<open>list_link\<close>
  is the filter \<open>href=lambda h: h and 'p_list_courses' in h\<close> on a tag named \<open>a\<close>.
\<close>

definition list_link :: "elem \<Rightarrow> string option" where
  "list_link x =
     (if has_name ''a'' (snd x) then
        (case get_attr (snd x) ''href'' of
           Some h \<Rightarrow> if h \<noteq> [] \<and> str_in ''p_list_courses'' h then Some h else None
         | None \<Rightarrow> None)
      else None)"

text \<open>The links of a zone (lines 336 to 353).\<close>

definition zone_links :: "node \<Rightarrow> elem \<Rightarrow> string list" where
  "zone_links soup a =
     (let links = (case find_parent soup ''table'' a of
                     Some parent_table \<Rightarrow> List.map_filter list_link (descendants parent_table)
                   | None \<Rightarrow> [])
      in if links = [] then
           (case parent soup a of
              Some par \<Rightarrow>
                links
                @ concat (map (\<lambda>sibling. List.map_filter list_link (descendants sibling))
                            (find_next_siblings soup par))
                @ List.map_filter list_link (take 15 (next_tags soup a))
            | None \<Rightarrow> links)
         else links)"

section \<open>Course details\<close>

text \<open>The index of the first element that satisfies \<open>P\<close>, counting from \<open>i\<close>.\<close>

fun first_index :: "('a \<Rightarrow> bool) \<Rightarrow> nat \<Rightarrow> 'a list \<Rightarrow> nat option" where
  "first_index P i [] = None"
| "first_index P i (x # xs) = (if P x then Some i else first_index P (Suc i) xs)"

text \<open>The last offered term of a fetched page (lines 83 to 98).\<close>

definition last_offered_term_of :: "node \<Rightarrow> string" where
  "last_offered_term_of soup =
     (case find_with_string ''b'' (str_in ''Last Offered Terms'') ([], soup) of
        None \<Rightarrow> []
      | Some last_offered_header \<Rightarrow>
          (case find_parent soup ''table'' last_offered_header of
             None \<Rightarrow> []
           | Some table \<Rightarrow>
               (let rows = find_all ''tr'' (snd table)
                in case first_index (\<lambda>row. str_in ''Last Offered Terms'' (get_text row)) 0 rows of
                     None \<Rightarrow> []
                   | Some header_row_index \<Rightarrow>
                       (if header_row_index + 1 < length rows then
                          (let cells = find_all ''td'' (rows ! (header_row_index + 1))
                           in if cells \<noteq> [] \<and> length cells \<ge> 1
                              then get_text_strip [] (cells ! 0) else [])
                        else []))))"

text \<open>
  \<open>get_course_details\<close> (lines 71 to 119): prerequisites, corequisites and the last
  offered term. Each of its two requests sits in a \<open>try\<close> whose handler catches every
  exception, so the function always returns.
\<close>

definition get_course_details :: "env \<Rightarrow> string \<Rightarrow> string \<Rightarrow> string \<Rightarrow> string \<times> string \<times> string"
  where
  "get_course_details w term major code =
     (let last_offered_url = BASE @ ''sabanci_www.p_get_courses?levl_code=UG&subj_code='' @ major
            @ ''&crse_numb='' @ code @ ''&lang=eng'';
          last_offered_term =
            (case get_soup w last_offered_url of
               Inl e \<Rightarrow> []
             | Inr soup \<Rightarrow> last_offered_term_of soup);
          detail_url = BASE @ ''bwckctlg.p_disp_course_detail?cat_term_in='' @ term
            @ ''&subj_code_in='' @ major @ ''&crse_numb_in='' @ code
      in case get_soup w detail_url of
           Inl e \<Rightarrow> ([], [], last_offered_term)
         | Inr soup \<Rightarrow>
             (extract_detail_text soup ''Prerequisites'',
              extract_detail_text soup ''Corequisites'', last_offered_term))"

text \<open>\<open>row.update(details)\<close>\<close>

definition update_row :: "course \<Rightarrow> string \<times> string \<times> string \<Rightarrow> course" where
  "update_row row details =
     row\<lparr>Prerequisites := Some (fst details), Corequisites := Some (fst (snd details)),
         Last_Offered_Term := Some (snd (snd details))\<rparr>"

text \<open>The test of line 418.\<close>

definition wants_details :: "course \<Rightarrow> bool" where
  "wants_details row =
     (EL_Type row = ''required'' \<or> EL_Type row = ''university'' \<or>
      (EL_Type row \<in> {''core'', ''area''} \<and> Major row \<in> {''CS'', ''DSA''}))"

text \<open>The loop of lines 417 to 422.\<close>

fun fetch_details :: "env \<Rightarrow> string \<Rightarrow> course list \<Rightarrow> course list" where
  "fetch_details w term [] = []"
| "fetch_details w term (row # rows) =
     (if wants_details row
      then update_row row (get_course_details w term (Major row) (Code row))
           # fetch_details w term rows
      else row # fetch_details w term rows)"

section \<open>The extraction merger\<close>

text \<open>
  The two variables that every pass of \<open>crawl_program\<close> updates are \<open>results\<close> and
  \<open>seen_courses\<close>. \<open>produced\<close> is a history variable: it records, in order, every row
  that a call of \<open>parse_table\<close> or \<open>crawl_list\<close> handed to a merge loop, whether the
  loop kept it or not. No branch of the model reads it.
\<close>

record crawl_state =
  results :: "course list"
  seen_courses :: "string set"
  produced :: "course list"

definition course_id :: "course \<Rightarrow> string" where
  "course_id row = Major row @ Code row"

text \<open>The merge loop (lines 329 to 333, 379 to 383 and 410 to 414).\<close>

fun merge_rows :: "crawl_state \<Rightarrow> course list \<Rightarrow> crawl_state" where
  "merge_rows st [] = st"
| "merge_rows st (row # new_rows) =
     (if course_id row \<notin> seen_courses st
      then merge_rows (st\<lparr>results := results st @ [row],
                          seen_courses := insert (course_id row) (seen_courses st)\<rparr>) new_rows
      else merge_rows st new_rows)"

definition merge_new :: "crawl_state \<Rightarrow> course list \<Rightarrow> crawl_state" where
  "merge_new st new_rows = merge_rows (st\<lparr>produced := produced st @ new_rows\<rparr>) new_rows"

text \<open>
  The loop over the links of a zone (lines 355 to 383). \<open>el_type\<close> is the variable of
  the enclosing iteration: a link with an area code overwrites it, a link without one
  reads what is there.
\<close>

fun link_loop :: "env \<Rightarrow> string list \<Rightarrow> string \<Rightarrow> crawl_state \<Rightarrow> error + crawl_state" where
  "link_loop w [] el_type st = Inr st"
| "link_loop w (href # links) el_type st =
     (let el_type' = (case area_search href of
                        Some area_code \<Rightarrow> classify_link area_code
                      | None \<Rightarrow> el_type);
          list_url = urljoin w BASE href
      in on_ok (crawl_list w list_url el_type')
           (\<lambda>new_rows. link_loop w links el_type' (merge_new st new_rows)))"

text \<open>\<open>a.get('name', '')\<close>\<close>

definition name_attr_of :: "elem \<Rightarrow> string" where
  "name_attr_of a = (case get_attr (snd a) ''name'' of Some v \<Rightarrow> v | None \<Rightarrow> [])"

text \<open>The body of the loop over the anchors, after the test of line 230 (lines 235 to 383).\<close>

definition zone_body :: "env \<Rightarrow> node \<Rightarrow> elem \<Rightarrow> crawl_state \<Rightarrow> error + crawl_state" where
  "zone_body w soup a st =
     (let name_attr = name_attr_of a;
          el_type = classify_anchor name_attr (category_title soup a)
      in on_ok (case locate_table soup a of
                  Some table \<Rightarrow>
                    on_ok (parse_table (snd table) el_type)
                      (\<lambda>new_rows. Inr (merge_new st new_rows))
                | None \<Rightarrow> Inr st)
           (\<lambda>st1. link_loop w (zone_links soup a) el_type st1))"

text \<open>The loop over \<open>soup.select('a[name]')\<close> (lines 227 to 383).\<close>

fun zone_loop :: "env \<Rightarrow> node \<Rightarrow> elem list \<Rightarrow> crawl_state \<Rightarrow> error + crawl_state" where
  "zone_loop w soup [] st = Inr st"
| "zone_loop w soup (a # anchors) st =
     (if \<not> is_zone_anchor (name_attr_of a) then zone_loop w soup anchors st
      else on_ok (zone_body w soup a st) (zone_loop w soup anchors))"

definition select_a_name :: "node \<Rightarrow> elem list" where
  "select_a_name soup =
     filter (\<lambda>x. has_name ''a'' (snd x) \<and> get_attr (snd x) ''name'' \<noteq> None)
       (descendants ([], soup))"

text \<open>The sweep of the whole document (lines 387 to 414).\<close>

fun sweep :: "env \<Rightarrow> string list \<Rightarrow> crawl_state \<Rightarrow> error + crawl_state" where
  "sweep w [] st = Inr st"
| "sweep w (href # click_links) st =
     (case area_search href of
        Some area_code \<Rightarrow>
          (let el_type = classify_fallback area_code;
               list_url = urljoin w BASE href
           in on_ok (crawl_list w list_url el_type)
                (\<lambda>new_rows. sweep w click_links (merge_new st new_rows)))
      | None \<Rightarrow> sweep w click_links st)"

definition init_state :: crawl_state where
  "init_state = \<lparr>results = [], seen_courses = {}, produced = []\<rparr>"

text \<open>The passes of \<open>crawl_program\<close> over the fetched document (lines 223 to 414).\<close>

definition crawl_passes :: "env \<Rightarrow> node \<Rightarrow> error + crawl_state" where
  "crawl_passes w soup =
     on_ok (zone_loop w soup (select_a_name soup) init_state)
       (\<lambda>st. sweep w (List.map_filter list_link (descendants ([], soup))) st)"

definition program_url :: "string \<Rightarrow> string \<Rightarrow> string" where
  "program_url code term =
     BASE @ ''SU_DEGREE.p_degree_detail?P_PROGRAM='' @ code @ ''&P_LANG=EN&P_LEVEL=UG''
       @ ''&P_TERM='' @ term @ ''&P_SUBMIT=Select''"

text \<open>\<open>crawl_program\<close> (lines 217 to 424).\<close>

definition crawl_program :: "env \<Rightarrow> string \<Rightarrow> string \<Rightarrow> error + course list" where
  "crawl_program w code term =
     on_ok (get_soup w (program_url code term)) (\<lambda>soup.
       on_ok (crawl_passes w soup) (\<lambda>st.
         Inr (fetch_details w term (results st))))"

section \<open>The row parser as the specification words it\<close>

text \<open>
  These definitions follow the words of the specification, for comparison with
  \<open>parse_table\<close>. The cells of a row are the texts of its \<open>td\<close> elements; the identity
  cell is the second one. The data rows of a table are its rows, without the first when
  that row has header cells. A row is accepted when it has at least five cells and its
  identity cell is not empty. The identity of an accepted row is the first token of the
  identity cell and the remaining tokens joined with no separator.
\<close>

definition cell_texts :: "node \<Rightarrow> string list" where
  "cell_texts tr = map (get_text_strip []) (find_all ''td'' tr)"

definition data_rows :: "node \<Rightarrow> node list" where
  "data_rows table =
     (case find_all ''tr'' table of
        [] \<Rightarrow> []
      | first # rest \<Rightarrow> if find_all ''th'' first \<noteq> [] then rest else first # rest)"

definition row_accepted :: "node \<Rightarrow> bool" where
  "row_accepted tr = (length (cell_texts tr) \<ge> 5 \<and> cell_texts tr ! 1 \<noteq> [])"

definition identity_tokens :: "node \<Rightarrow> string list" where
  "identity_tokens tr = split (cell_texts tr ! 1)"

definition spec_identity :: "node \<Rightarrow> string \<times> string" where
  "spec_identity tr = (hd (identity_tokens tr), concat (tl (identity_tokens tr)))"

section \<open>The zone markers and the merged record set as the specification words them\<close>



section \<open>Example documents\<close>

text \<open>A data row with a centred asterisk in its first cell, and a header row.\<close>

definition ex_row :: node where
  "ex_row =
     Tag ''tr'' []
       [Tag ''td'' [] [Tag ''center'' [] [NavigableString '' * '']],
        Tag ''td'' [] [NavigableString ''CS 201''],
        Tag ''td'' [] [NavigableString ''Intro to CS''],
        Tag ''td'' [] [NavigableString ''6''],
        Tag ''td'' [] [NavigableString ''4''],
        Tag ''td'' [] [NavigableString ''FENS'']]"

definition ex_header :: node where
  "ex_header =
     Tag ''tr'' []
       [Tag ''th'' [] [], Tag ''th'' [] [NavigableString ''Course''],
        Tag ''th'' [] [NavigableString ''Name''], Tag ''th'' [] [NavigableString ''ECTS''],
        Tag ''th'' [] [NavigableString ''SU Credits''],
        Tag ''th'' [] [NavigableString ''Faculty'']]"

text \<open>A data row from its six cell texts, with an empty first cell.\<close>

definition ex_tr :: "string \<Rightarrow> string \<Rightarrow> node" where
  "ex_tr ident name =
     Tag ''tr'' []
       [Tag ''td'' [] [], Tag ''td'' [] [NavigableString ident],
        Tag ''td'' [] [NavigableString name], Tag ''td'' [] [NavigableString ''6''],
        Tag ''td'' [] [NavigableString ''3''], Tag ''td'' [] [NavigableString ''FENS'']]"

text \<open>A table with a header row, a full row and a row of two cells.\<close>

definition ex_table :: node where
  "ex_table =
     Tag ''table'' []
       [ex_header, ex_row,
        Tag ''tr'' [] [Tag ''td'' [] [], Tag ''td'' [] [NavigableString ''MATH 101'']]]"

text \<open>
  A program page: one zone \<open>BSCS_REQ\<close> whose enclosing table holds an expand link, the
  course table of the zone, and below it a link that belongs to no zone.
\<close>

definition ex_req_href :: string where
  "ex_req_href = ''SU_DEGREE.p_list_courses?P_TERM=1&P_AREA=BSCS_REQ''"

definition ex_ce2_href :: string where
  "ex_ce2_href = ''SU_DEGREE.p_list_courses?P_AREA=BSCS_CE2&P_TERM=1''"

definition ex_plain_href :: string where
  "ex_plain_href = ''SU_DEGREE.p_list_courses?P_TERM=1''"

definition ex_page :: node where
  "ex_page =
     Tag ''[document]'' []
       [Tag ''html'' []
          [Tag ''body'' []
             [Tag ''table'' []
                [Tag ''tr'' []
                   [Tag ''td'' []
                      [Tag ''a'' [(''name'', ''BSCS_REQ'')] [],
                       Tag ''b'' [] [NavigableString ''Required Courses''],
                       Tag ''a'' [(''href'', ex_req_href)] [NavigableString ''Click'']]]],
              Tag ''table'' [] [ex_header, ex_tr ''CS 201'' ''Intro to CS''],
              Tag ''a'' [(''href'', ex_ce2_href)] [NavigableString ''Click'']]]]"

text \<open>The pages behind the links: each is a table without a header row.\<close>

definition ex_req_list :: node where
  "ex_req_list =
     Tag ''[document]'' []
       [Tag ''html'' []
          [Tag ''body'' []
             [Tag ''table'' []
                [ex_tr ''CS 201'' ''Introduction'', ex_tr ''MATH 101'' ''Calculus'']]]]"

definition ex_ce2_list :: node where
  "ex_ce2_list =
     Tag ''[document]'' []
       [Tag ''html'' []
          [Tag ''body'' [] [Tag ''table'' [] [ex_tr ''MATH 306'' ''Statistics'']]]]"

text \<open>A course detail page: the label, a value, a break, a value, a break, more text.\<close>

definition ex_detail :: node where
  "ex_detail =
     Tag ''[document]'' []
       [Tag ''td'' []
          [Tag ''span'' [] [NavigableString ''Prerequisites: ''],
           NavigableString ''value1'', Tag ''br'' [] [],
           NavigableString '' value2 '', Tag ''br'' [] [],
           NavigableString ''trailing'']]"

text \<open>
  A world in which every page is served, and one in which the request for the link
  that belongs to no zone fails.
\<close>

definition ex_get :: "string \<Rightarrow> error + node" where
  "ex_get url =
     (if url = program_url ''BSCS'' ''1'' then Inr ex_page
      else if url = BASE @ ex_req_href then Inr ex_req_list
      else if url = BASE @ ex_ce2_href then Inr ex_ce2_list
      else if url = BASE @ ex_plain_href then Inr ex_req_list
      else Inl RequestError)"

definition ex_env :: env where
  "ex_env = \<lparr>get_soup = ex_get, urljoin = (\<lambda>base href. base @ href)\<rparr>"

definition ex_env_down :: env where
  "ex_env_down =
     \<lparr>get_soup = (\<lambda>url. if url = BASE @ ex_ce2_href then Inl RequestError else ex_get url),
      urljoin = (\<lambda>base href. base @ href)\<rparr>"

section \<open>Facts about the string operations\<close>

lemma startswith_iff: "startswith s p \<longleftrightarrow> (\<exists>r. s = p @ r)"
proof
  assume "startswith s p"
  then have "s = p @ drop (length p) s"
    unfolding startswith_def by (metis append_take_drop_id)
  then show "\<exists>r. s = p @ r" ..
next
  assume "\<exists>r. s = p @ r"
  then show "startswith s p" by (auto simp: startswith_def)
qed


lemma str_in_iff: "str_in sub s \<longleftrightarrow> (\<exists>ps ss. s = ps @ sub @ ss)"
proof (induction s)
  case Nil
  then show ?case by auto
next
  case (Cons c cs)
  show ?case
  proof
    assume "str_in sub (c # cs)"
    then consider "startswith (c # cs) sub" | "str_in sub cs" by auto
    then show "\<exists>ps ss. c # cs = ps @ sub @ ss"
    proof cases
      case 1
      then obtain r where "c # cs = sub @ r" unfolding startswith_iff ..
      then have "c # cs = [] @ sub @ r" by simp
      then show ?thesis by blast
    next
      case 2
      then obtain ps ss where "cs = ps @ sub @ ss" using Cons.IH by blast
      then have "c # cs = (c # ps) @ sub @ ss" by simp
      then show ?thesis by blast
    qed
  next
    assume "\<exists>ps ss. c # cs = ps @ sub @ ss"
    then obtain ps ss where e: "c # cs = ps @ sub @ ss" by blast
    show "str_in sub (c # cs)"
    proof (cases ps)
      case Nil
      with e have "startswith (c # cs) sub" unfolding startswith_iff by auto
      then show ?thesis by simp
    next
      case (Cons a ps')
      with e have "cs = ps' @ sub @ ss" by simp
      then have "str_in sub cs" using Cons.IH by blast
      then show ?thesis by simp
    qed
  qed
qed

lemma split_from_Nil_iff: "split_from cur s = [] \<longleftrightarrow> cur = [] \<and> (\<forall>c\<in>set s. is_space c)"
  by (induction s arbitrary: cur) auto

lemma split_from_replace_nbsp: "split_from cur (replace_nbsp s) = split_from cur s"
proof (induction s arbitrary: cur)
  case Nil
  then show ?case by (simp add: replace_nbsp_def)
next
  case (Cons c s)
  have sp: "is_space (CHR 0xA0)" "is_space (CHR '' '')" by (simp_all add: is_space_def)
  from Cons show ?case using sp by (auto simp: replace_nbsp_def)
qed

lemma split_replace_nbsp: "split (replace_nbsp s) = split s"
  by (simp add: split_def split_from_replace_nbsp)

lemma strip_nonspace: 
  assumes "strip s \<noteq> []" shows "\<exists>c\<in>set (strip s). \<not> is_space c"
proof -
  let ?t = "dropWhile is_space (rev (dropWhile is_space s))"
  from assms have ne: "?t \<noteq> []" by (simp add: strip_def)
  then have "\<not> is_space (hd ?t)" by (rule hd_dropWhile)
  moreover from ne have "hd ?t \<in> set ?t" by simp
  ultimately show ?thesis by (auto simp: strip_def)
qed

lemma str_join_Nil: "str_join [] xs = concat xs"
  by (induction "[]::string" xs rule: str_join.induct) auto

lemma get_text_strip_nonspace:
  assumes "get_text_strip [] x \<noteq> []"
  shows "\<exists>c\<in>set (get_text_strip [] x). \<not> is_space c"
proof -
  let ?ps = "filter (\<lambda>s. s \<noteq> []) (map strip (strings x))"
  from assms have "concat ?ps \<noteq> []" by (simp add: get_text_strip_def str_join_Nil)
  then obtain p where p: "p \<in> set ?ps" "p \<noteq> []" by auto
  then obtain s where "p = strip s" by auto
  with p strip_nonspace obtain c where "c \<in> set p" "\<not> is_space c" by blast
  with p show ?thesis by (auto simp: get_text_strip_def str_join_Nil)
qed

lemma split_get_text_strip:
  assumes "get_text_strip [] x \<noteq> []"
  shows "split (get_text_strip [] x) \<noteq> []"
  using get_text_strip_nonspace [OF assms] by (auto simp: split_def split_from_Nil_iff)


section \<open>Facts about the row parser\<close>

lemma identity_tokens_nonempty:
  assumes "row_accepted tr"
  shows "identity_tokens tr \<noteq> []"
proof -
  from assms have len: "1 < length (find_all ''td'' tr)" and ne: "cell_texts tr ! 1 \<noteq> []"
    by (auto simp: row_accepted_def cell_texts_def)
  from len have "cell_texts tr ! 1 = get_text_strip [] (find_all ''td'' tr ! 1)"
    by (simp add: cell_texts_def)
  with ne show ?thesis
    by (simp add: identity_tokens_def split_get_text_strip)
qed

lemma parse_row_accepted:
  assumes "row_accepted tr"
  shows "\<exists>r. parse_row category tr = Inr (Some r) \<and> Major r = hd (identity_tokens tr)
           \<and> Code r = concat (tl (identity_tokens tr))"
proof -
  from identity_tokens_nonempty [OF assms]
  obtain major rest where toks: "identity_tokens tr = major # rest"
    by (cases "identity_tokens tr") auto
  then have sp: "split (replace_nbsp (map (get_text_strip []) (find_all ''td'' tr) ! 1)) = major # rest"
    by (simp add: identity_tokens_def cell_texts_def split_replace_nbsp)
  from assms have ok: "5 \<le> length (map (get_text_strip []) (find_all ''td'' tr))"
      "map (get_text_strip []) (find_all ''td'' tr) ! 1 \<noteq> []"
    by (auto simp: row_accepted_def cell_texts_def)
  show ?thesis
    unfolding parse_row_def Let_def using ok sp toks by (cases rest) simp_all
qed

lemma parse_row_rejected:
  assumes "\<not> row_accepted tr"
  shows "parse_row category tr = Inr None"
  using assms unfolding parse_row_def Let_def row_accepted_def cell_texts_def by auto

lemma parse_row_Some_accepted:
  assumes "parse_row category tr = Inr (Some r)"
  shows "row_accepted tr"
  using assms parse_row_rejected [of tr category] by (cases "row_accepted tr") auto

lemma parse_row_no_error: "parse_row category tr \<noteq> Inl e"
  using parse_row_accepted [of tr category] parse_row_rejected [of tr category]
  by (cases "row_accepted tr") auto

lemma parse_rows_spec:
  "\<exists>rs. parse_rows category trs acc = Inr (acc @ rs) \<and>
        map (\<lambda>r. (Major r, Code r)) rs = map spec_identity (filter row_accepted trs)"
proof (induction trs arbitrary: acc)
  case Nil
  then show ?case by simp
next
  case (Cons tr trs)
  show ?case
  proof (cases "row_accepted tr")
    case True
    from parse_row_accepted [OF True, of category] obtain r where
      r: "parse_row category tr = Inr (Some r)" "Major r = hd (identity_tokens tr)"
         "Code r = concat (tl (identity_tokens tr))" by blast
    from Cons.IH [of "acc @ [r]"] obtain rs where
      rs: "parse_rows category trs (acc @ [r]) = Inr ((acc @ [r]) @ rs)"
          "map (\<lambda>r. (Major r, Code r)) rs = map spec_identity (filter row_accepted trs)" by blast
    have "parse_rows category (tr # trs) acc = Inr (acc @ (r # rs))" using r rs by simp
    moreover have "map (\<lambda>r. (Major r, Code r)) (r # rs)
        = map spec_identity (filter row_accepted (tr # trs))"
      using True r rs by (simp add: spec_identity_def)
    ultimately show ?thesis by blast
  next
    case False
    from Cons.IH [of acc] obtain rs where
      rs: "parse_rows category trs acc = Inr (acc @ rs)"
          "map (\<lambda>r. (Major r, Code r)) rs = map spec_identity (filter row_accepted trs)" by blast
    then show ?thesis using False parse_row_rejected [OF False, of category] by auto
  qed
qed

lemma parse_rows_origin:
  "parse_rows category trs acc = Inr rs \<Longrightarrow> r \<in> set rs \<Longrightarrow>
     r \<in> set acc \<or> (\<exists>tr\<in>set trs. parse_row category tr = Inr (Some r))"
proof (induction trs arbitrary: acc)
  case Nil
  then show ?case by simp
next
  case (Cons tr trs)
  show ?case
  proof (cases "parse_row category tr")
    case (Inl e)
    with Cons.prems show ?thesis by simp
  next
    case (Inr o_row)
    show ?thesis
    proof (cases o_row)
      case None
      with Inr Cons.prems have "parse_rows category trs acc = Inr rs" by simp
      from Cons.IH [OF this Cons.prems(2)] show ?thesis by auto
    next
      case (Some row)
      with Inr Cons.prems have "parse_rows category trs (acc @ [row]) = Inr rs" by simp
      from Cons.IH [OF this Cons.prems(2)] show ?thesis using Inr Some by auto
    qed
  qed
qed

lemma parse_table_origin:
  assumes "parse_table table category = Inr rs" and "r \<in> set rs"
  shows "\<exists>tr. parse_row category tr = Inr (Some r)"
proof (cases "find_all ''tr'' table = []")
  case True
  with assms show ?thesis by (simp add: parse_table_def)
next
  case False
  with assms(1) have "parse_rows category
      (drop (if length (find_all ''th'' (find_all ''tr'' table ! 0)) > 0 then 1 else 0)
         (find_all ''tr'' table)) [] = Inr rs"
    by (simp add: parse_table_def Let_def)
  from parse_rows_origin [OF this assms(2)] show ?thesis by auto
qed

lemma parse_table_data_rows:
  "parse_table table category = parse_rows category (data_rows table) []"
proof (cases "find_all ''tr'' table")
  case Nil
  then show ?thesis by (simp add: parse_table_def data_rows_def)
next
  case (Cons first rest)
  then show ?thesis by (simp add: parse_table_def data_rows_def Let_def)
qed

section \<open>Facts about errors, the registry and a parsed row\<close>

lemma on_ok_Inr_iff: "on_ok r f = Inr y \<longleftrightarrow> (\<exists>v. r = Inr v \<and> f v = Inr y)"
  by (cases r) (simp_all add: on_ok_def)

lemma on_ok_Inl: "on_ok (Inl e) f = Inl e"
  by (simp add: on_ok_def)

lemma on_ok_Inr: "on_ok (Inr v) f = f v"
  by (simp add: on_ok_def)


lemma parse_row_fields:
  assumes "parse_row category tr = Inr (Some r)"
  shows "EL_Type r = override_el_type (has_asterisk (find_all ''td'' tr)) (Faculty_Course r) category"
    and "Faculty_Course r = (case get_faculty_for_course (Major r) (Code r) of
                               None \<Rightarrow> ''No'' | Some f \<Rightarrow> f)"
    and "Prerequisites r = None" and "Corequisites r = None" and "Last_Offered_Term r = None"
  using assms unfolding parse_row_def Let_def
  by (auto split: if_splits list.splits)



lemma crawl_list_origin:
  assumes "crawl_list w url category = Inr rows" and "r \<in> set rows"
  shows "\<exists>tr. parse_row category tr = Inr (Some r)"
proof -
  from assms(1) obtain soup where soup: "get_soup w url = Inr soup"
    and res: "(case find_elem ''table'' ([], soup) of
                 Some table \<Rightarrow> parse_table (snd table) category
               | None \<Rightarrow> Inr []) = Inr rows"
    by (auto simp: crawl_list_def on_ok_Inr_iff)
  show ?thesis
  proof (cases "find_elem ''table'' ([], soup)")
    case None
    with res assms(2) show ?thesis by simp
  next
    case (Some table)
    with res have "parse_table (snd table) category = Inr rows" by simp
    from parse_table_origin [OF this assms(2)] show ?thesis .
  qed
qed

lemma crawl_list_fetched:
  assumes "crawl_list w url category = Inr rows"
  shows "\<exists>d. get_soup w url = Inr d"
  using assms by (auto simp: crawl_list_def on_ok_Inr_iff)

lemma crawl_list_failed:
  assumes "get_soup w url = Inl e"
  shows "crawl_list w url category = Inl e"
  using assms by (simp add: crawl_list_def on_ok_def)

section \<open>Facts about the merge loop\<close>





lemma merge_rows_appends:
  "\<exists>ks. results (merge_rows st rows) = results st @ ks \<and>
     (\<forall>r\<in>set ks. \<exists>pre post. rows = pre @ r # post \<and>
         course_id r \<notin> seen_courses st \<and> course_id r \<notin> course_id ` set pre)"
proof (induction rows arbitrary: st)
  case Nil
  then show ?case by simp
next
  case (Cons row rows)
  show ?case
  proof (cases "course_id row \<in> seen_courses st")
    case True
    from Cons.IH [of st] obtain ks where ks: "results (merge_rows st rows) = results st @ ks"
      "\<forall>r\<in>set ks. \<exists>pre post. rows = pre @ r # post \<and>
         course_id r \<notin> seen_courses st \<and> course_id r \<notin> course_id ` set pre" by blast
    have "\<forall>r\<in>set ks. \<exists>pre post. row # rows = pre @ r # post \<and>
         course_id r \<notin> seen_courses st \<and> course_id r \<notin> course_id ` set pre"
    proof
      fix r assume "r \<in> set ks"
      with ks(2) obtain pre post where p: "rows = pre @ r # post"
        "course_id r \<notin> seen_courses st" "course_id r \<notin> course_id ` set pre" by blast
      with True have "course_id r \<noteq> course_id row" by auto
      with p have "row # rows = (row # pre) @ r # post \<and>
         course_id r \<notin> seen_courses st \<and> course_id r \<notin> course_id ` set (row # pre)" by auto
      then show "\<exists>pre post. row # rows = pre @ r # post \<and>
         course_id r \<notin> seen_courses st \<and> course_id r \<notin> course_id ` set pre" by blast
    qed
    with ks(1) True show ?thesis by auto
  next
    case False
    let ?st1 = "st\<lparr>results := results st @ [row],
                    seen_courses := insert (course_id row) (seen_courses st)\<rparr>"
    from Cons.IH [of ?st1] obtain ks where ks: "results (merge_rows ?st1 rows) = results ?st1 @ ks"
      "\<forall>r\<in>set ks. \<exists>pre post. rows = pre @ r # post \<and>
         course_id r \<notin> seen_courses ?st1 \<and> course_id r \<notin> course_id ` set pre" by blast
    have "\<forall>r\<in>set (row # ks). \<exists>pre post. row # rows = pre @ r # post \<and>
         course_id r \<notin> seen_courses st \<and> course_id r \<notin> course_id ` set pre"
    proof
      fix r assume "r \<in> set (row # ks)"
      then consider "r = row" | "r \<in> set ks" by auto
      then show "\<exists>pre post. row # rows = pre @ r # post \<and>
         course_id r \<notin> seen_courses st \<and> course_id r \<notin> course_id ` set pre"
      proof cases
        case 1
        with False have "row # rows = [] @ r # rows \<and>
           course_id r \<notin> seen_courses st \<and> course_id r \<notin> course_id ` set []" by simp
        then show ?thesis by blast
      next
        case 2
        with ks(2) obtain pre post where p: "rows = pre @ r # post"
          "course_id r \<notin> seen_courses ?st1" "course_id r \<notin> course_id ` set pre" by blast
        then have "row # rows = (row # pre) @ r # post \<and>
           course_id r \<notin> seen_courses st \<and> course_id r \<notin> course_id ` set (row # pre)" by auto
        then show ?thesis by blast
      qed
    qed
    moreover have "results (merge_rows st (row # rows)) = results st @ (row # ks)"
      using False ks(1) by simp
    ultimately show ?thesis by blast
  qed
qed







lemma merge_new_results_subset:
  "set (results (merge_new st rows)) \<subseteq> set (results st) \<union> set rows"
proof -
  from merge_rows_appends [of "st\<lparr>produced := produced st @ rows\<rparr>" rows] obtain ks where
    ks: "results (merge_rows (st\<lparr>produced := produced st @ rows\<rparr>) rows)
           = results (st\<lparr>produced := produced st @ rows\<rparr>) @ ks"
    "\<forall>r\<in>set ks. \<exists>pre post. rows = pre @ r # post \<and>
         course_id r \<notin> seen_courses (st\<lparr>produced := produced st @ rows\<rparr>) \<and>
         course_id r \<notin> course_id ` set pre" by blast
  from ks(2) have "set ks \<subseteq> set rows" by auto
  with ks(1) show ?thesis by (auto simp: merge_new_def)
qed

section \<open>Facts about the passes\<close>

lemma link_loop_preserves:
  assumes step: "\<And>st c rows. I st \<Longrightarrow> (\<forall>r\<in>set rows. \<exists>tr. parse_row c tr = Inr (Some r))
                   \<Longrightarrow> I (merge_new st rows)"
  shows "I st \<Longrightarrow> link_loop w links el_type st = Inr st' \<Longrightarrow> I st'"
proof (induction links arbitrary: el_type st)
  case Nil
  then show ?case by simp
next
  case (Cons href links)
  let ?el = "case area_search href of Some area_code \<Rightarrow> classify_link area_code | None \<Rightarrow> el_type"
  from Cons.prems(2) obtain rows where
    rows: "crawl_list w (urljoin w BASE href) ?el = Inr rows"
    and rest: "link_loop w links ?el (merge_new st rows) = Inr st'"
    by (auto simp: Let_def on_ok_Inr_iff)
  from crawl_list_origin [OF rows] have "\<forall>r\<in>set rows. \<exists>tr. parse_row ?el tr = Inr (Some r)"
    by blast
  from step [OF Cons.prems(1) this] have "I (merge_new st rows)" .
  from Cons.IH [OF this rest] show ?case .
qed

lemma zone_body_preserves:
  assumes step: "\<And>st c rows. I st \<Longrightarrow> (\<forall>r\<in>set rows. \<exists>tr. parse_row c tr = Inr (Some r))
                   \<Longrightarrow> I (merge_new st rows)"
    and "I st" and "zone_body w soup a st = Inr st'"
  shows "I st'"
proof -
  let ?el = "classify_anchor (name_attr_of a) (category_title soup a)"
  from assms(3) obtain st1 where
    s1: "(case locate_table soup a of
            Some table \<Rightarrow> on_ok (parse_table (snd table) ?el) (\<lambda>new_rows. Inr (merge_new st new_rows))
          | None \<Rightarrow> Inr st) = Inr st1"
    and s2: "link_loop w (zone_links soup a) ?el st1 = Inr st'"
    by (auto simp: zone_body_def Let_def on_ok_Inr_iff)
  have "I st1"
  proof (cases "locate_table soup a")
    case None
    with s1 assms(2) show ?thesis by simp
  next
    case (Some table)
    with s1 obtain rows where rows: "parse_table (snd table) ?el = Inr rows"
      and st1: "st1 = merge_new st rows" by (auto simp: on_ok_Inr_iff)
    from parse_table_origin [OF rows] have "\<forall>r\<in>set rows. \<exists>tr. parse_row ?el tr = Inr (Some r)"
      by blast
    from step [OF assms(2) this] st1 show ?thesis by simp
  qed
  from link_loop_preserves [of I, OF step this s2] show ?thesis .
qed

lemma zone_loop_preserves:
  assumes step: "\<And>st c rows. I st \<Longrightarrow> (\<forall>r\<in>set rows. \<exists>tr. parse_row c tr = Inr (Some r))
                   \<Longrightarrow> I (merge_new st rows)"
  shows "I st \<Longrightarrow> zone_loop w soup anchors st = Inr st' \<Longrightarrow> I st'"
proof (induction anchors arbitrary: st)
  case Nil
  then show ?case by simp
next
  case (Cons a anchors)
  show ?case
  proof (cases "is_zone_anchor (name_attr_of a)")
    case False
    with Cons.prems(2) have "zone_loop w soup anchors st = Inr st'" by simp
    from Cons.IH [OF Cons.prems(1) this] show ?thesis .
  next
    case True
    with Cons.prems(2) obtain st1 where b: "zone_body w soup a st = Inr st1"
      and r: "zone_loop w soup anchors st1 = Inr st'" by (auto simp: on_ok_Inr_iff)
    from zone_body_preserves [of I, OF step Cons.prems(1) b] have "I st1" .
    from Cons.IH [OF this r] show ?thesis .
  qed
qed

lemma sweep_preserves:
  assumes step: "\<And>st c rows. I st \<Longrightarrow> (\<forall>r\<in>set rows. \<exists>tr. parse_row c tr = Inr (Some r))
                   \<Longrightarrow> I (merge_new st rows)"
  shows "I st \<Longrightarrow> sweep w links st = Inr st' \<Longrightarrow> I st'"
proof (induction links arbitrary: st)
  case Nil
  then show ?case by simp
next
  case (Cons href links)
  show ?case
  proof (cases "area_search href")
    case None
    with Cons.prems(2) have "sweep w links st = Inr st'" by simp
    from Cons.IH [OF Cons.prems(1) this] show ?thesis .
  next
    case (Some area_code)
    with Cons.prems(2) obtain rows where
      rows: "crawl_list w (urljoin w BASE href) (classify_fallback area_code) = Inr rows"
      and rest: "sweep w links (merge_new st rows) = Inr st'"
      by (auto simp: Let_def on_ok_Inr_iff)
    from crawl_list_origin [OF rows]
    have "\<forall>r\<in>set rows. \<exists>tr. parse_row (classify_fallback area_code) tr = Inr (Some r)" by blast
    from step [OF Cons.prems(1) this] have "I (merge_new st rows)" .
    from Cons.IH [OF this rest] show ?thesis .
  qed
qed

lemma crawl_passes_preserves:
  assumes step: "\<And>st c rows. I st \<Longrightarrow> (\<forall>r\<in>set rows. \<exists>tr. parse_row c tr = Inr (Some r))
                   \<Longrightarrow> I (merge_new st rows)"
    and "I init_state" and "crawl_passes w soup = Inr st'"
  shows "I st'"
proof -
  from assms(3) obtain st1 where
    z: "zone_loop w soup (select_a_name soup) init_state = Inr st1"
    and s: "sweep w (List.map_filter list_link (descendants ([], soup))) st1 = Inr st'"
    by (auto simp: crawl_passes_def on_ok_Inr_iff)
  from zone_loop_preserves [of I, OF step assms(2) z] have "I st1" .
  from sweep_preserves [of I, OF step this s] show ?thesis .
qed


lemma fetch_details_map:
  "fetch_details w term rows =
     map (\<lambda>row. if wants_details row
                then update_row row (get_course_details w term (Major row) (Code row))
                else row) rows"
  by (induction rows) auto

lemma crawl_program_Inr:
  assumes "crawl_program w code term = Inr rs"
  shows "\<exists>soup st. get_soup w (program_url code term) = Inr soup \<and> crawl_passes w soup = Inr st
           \<and> rs = fetch_details w term (results st)"
  using assms by (auto simp: crawl_program_def on_ok_Inr_iff)

section \<open>Facts about strip\<close>

lemma strip_self:
  assumes "s = [] \<or> (\<not> is_space (hd s) \<and> \<not> is_space (last s))"
  shows "strip s = s"
proof (cases "s = []")
  case True
  then show ?thesis by (simp add: strip_def)
next
  case False
  with assms have h: "\<not> is_space (hd s)" and l: "\<not> is_space (last s)" by auto
  from False h have a: "dropWhile is_space s = s" by (cases s) auto
  from False l have "\<not> is_space (hd (rev s))" by (simp add: hd_rev)
  with False have b: "dropWhile is_space (rev s) = rev s" by (cases "rev s") auto
  show ?thesis by (simp add: strip_def a b)
qed

lemma last_dropWhile_nonempty:
  assumes "dropWhile P xs \<noteq> []"
  shows "last (dropWhile P xs) = last xs"
  using assms by (metis last_appendR takeWhile_dropWhile_id)

lemma strip_ends:
  assumes "strip s \<noteq> []"
  shows "\<not> is_space (hd (strip s))" and "\<not> is_space (last (strip s))"
proof -
  let ?t = "dropWhile is_space s"
  let ?u = "dropWhile is_space (rev ?t)"
  from assms have u: "?u \<noteq> []" by (simp add: strip_def)
  then have t: "?t \<noteq> []" by (metis dropWhile.simps(1) rev.simps(1))
  have "hd (strip s) = last ?u" using u by (simp add: strip_def hd_rev)
  also have "\<dots> = last (rev ?t)" using u by (rule last_dropWhile_nonempty)
  also have "\<dots> = hd ?t" using t by (simp add: last_rev)
  finally have "hd (strip s) = hd ?t" .
  moreover from t have "\<not> is_space (hd ?t)" by (rule hd_dropWhile)
  ultimately show "\<not> is_space (hd (strip s))" by simp
  have "last (strip s) = hd ?u" using u by (simp add: strip_def last_rev)
  moreover from u have "\<not> is_space (hd ?u)" by (rule hd_dropWhile)
  ultimately show "\<not> is_space (last (strip s))" by simp
qed

lemma strip_join_two:
  "strip (str_join '' '' (filter (\<lambda>p. p \<noteq> []) [strip a, strip b]))
     = str_join '' '' (filter (\<lambda>p. p \<noteq> []) [strip a, strip b])"
proof (rule strip_self)
  let ?j = "str_join '' '' (filter (\<lambda>p. p \<noteq> []) [strip a, strip b])"
  show "?j = [] \<or> (\<not> is_space (hd ?j) \<and> \<not> is_space (last ?j))"
    using strip_ends [of a] strip_ends [of b]
    by (cases "strip a = []"; cases "strip b = []") auto
qed

section \<open>Facts about the zone test\<close>



section \<open>Facts about the rows and the links of a run\<close>


lemma link_loop_fetched:
  "link_loop w links el_type st = Inr st' \<Longrightarrow> href \<in> set links \<Longrightarrow>
     \<exists>d. get_soup w (urljoin w BASE href) = Inr d"
proof (induction links arbitrary: el_type st)
  case Nil
  then show ?case by simp
next
  case (Cons h links)
  let ?el = "case area_search h of Some area_code \<Rightarrow> classify_link area_code | None \<Rightarrow> el_type"
  from Cons.prems(1) obtain rows where
    rows: "crawl_list w (urljoin w BASE h) ?el = Inr rows"
    and rest: "link_loop w links ?el (merge_new st rows) = Inr st'"
    by (auto simp: Let_def on_ok_Inr_iff)
  show ?case
  proof (cases "href = h")
    case True
    with crawl_list_fetched [OF rows] show ?thesis by simp
  next
    case False
    with Cons.prems(2) have "href \<in> set links" by simp
    from Cons.IH [OF rest this] show ?thesis .
  qed
qed

lemma zone_loop_fetched:
  "zone_loop w soup anchors st = Inr st' \<Longrightarrow> a \<in> set anchors \<Longrightarrow>
   is_zone_anchor (name_attr_of a) \<Longrightarrow> href \<in> set (zone_links soup a) \<Longrightarrow>
     \<exists>d. get_soup w (urljoin w BASE href) = Inr d"
proof (induction anchors arbitrary: st)
  case Nil
  then show ?case by simp
next
  case (Cons b anchors)
  show ?case
  proof (cases "is_zone_anchor (name_attr_of b)")
    case False
    with Cons.prems(1) have r: "zone_loop w soup anchors st = Inr st'" by simp
    from False Cons.prems(2,3) have "a \<in> set anchors" by auto
    from Cons.IH [OF r this Cons.prems(3,4)] show ?thesis .
  next
    case True
    with Cons.prems(1) obtain st1 where body: "zone_body w soup b st = Inr st1"
      and r: "zone_loop w soup anchors st1 = Inr st'" by (auto simp: on_ok_Inr_iff)
    show ?thesis
    proof (cases "a = b")
      case True
      from body obtain st0 where
        "link_loop w (zone_links soup b)
           (classify_anchor (name_attr_of b) (category_title soup b)) st0 = Inr st1"
        by (auto simp: zone_body_def Let_def on_ok_Inr_iff)
      from link_loop_fetched [OF this] Cons.prems(4) True show ?thesis by simp
    next
      case False
      with Cons.prems(2) have "a \<in> set anchors" by simp
      from Cons.IH [OF r this Cons.prems(3,4)] show ?thesis .
    qed
  qed
qed

lemma sweep_fetched:
  "sweep w links st = Inr st' \<Longrightarrow> href \<in> set links \<Longrightarrow> area_search href \<noteq> None \<Longrightarrow>
     \<exists>d. get_soup w (urljoin w BASE href) = Inr d"
proof (induction links arbitrary: st)
  case Nil
  then show ?case by simp
next
  case (Cons h links)
  show ?case
  proof (cases "area_search h")
    case None
    with Cons.prems(1) have r: "sweep w links st = Inr st'" by simp
    from None Cons.prems(2,3) have "href \<in> set links" by auto
    from Cons.IH [OF r this Cons.prems(3)] show ?thesis .
  next
    case (Some area_code)
    with Cons.prems(1) obtain rows where
      rows: "crawl_list w (urljoin w BASE h) (classify_fallback area_code) = Inr rows"
      and rest: "sweep w links (merge_new st rows) = Inr st'"
      by (auto simp: Let_def on_ok_Inr_iff)
    show ?thesis
    proof (cases "href = h")
      case True
      with crawl_list_fetched [OF rows] show ?thesis by simp
    next
      case False
      with Cons.prems(2) have "href \<in> set links" by simp
      from Cons.IH [OF rest this Cons.prems(3)] show ?thesis .
    qed
  qed
qed

lemma crawl_passes_no_details:
  assumes "crawl_passes w soup = Inr st" and "r \<in> set (results st)"
  shows "Prerequisites r = None \<and> Corequisites r = None \<and> Last_Offered_Term r = None"
proof -
  let ?I = "\<lambda>st. \<forall>r\<in>set (results st).
              Prerequisites r = None \<and> Corequisites r = None \<and> Last_Offered_Term r = None"
  have step: "\<And>st c rows. ?I st \<Longrightarrow> (\<forall>r\<in>set rows. \<exists>tr. parse_row c tr = Inr (Some r))
                \<Longrightarrow> ?I (merge_new st rows)"
  proof
    fix st :: crawl_state and c rows r
    assume old: "?I st" and new: "\<forall>r\<in>set rows. \<exists>tr. parse_row c tr = Inr (Some r)"
      and "r \<in> set (results (merge_new st rows))"
    with merge_new_results_subset [of st rows] consider "r \<in> set (results st)" | "r \<in> set rows"
      by auto
    then show "Prerequisites r = None \<and> Corequisites r = None \<and> Last_Offered_Term r = None"
    proof cases
      case 1
      with old show ?thesis by blast
    next
      case 2
      with new obtain tr where "parse_row c tr = Inr (Some r)" by blast
      from parse_row_fields(3-5) [OF this] show ?thesis by simp
    qed
  qed
  have init: "?I init_state" by (simp add: init_state_def)
  have "?I st" by (rule crawl_passes_preserves [of ?I, OF step init assms(1)])
  with assms(2) show ?thesis by blast
qed

section \<open>Facts about the example run\<close>

lemma ex_run:
  "map_sum id (map (\<lambda>r. (Major r, Code r, EL_Type r, Prerequisites r)))
     (crawl_program ex_env ''BSCS'' ''1'')
     = Inr [(''CS'', ''201'', ''required'', Some []), (''MATH'', ''101'', ''required'', Some []),
            (''MATH'', ''306'', ''core'', None)]"
  by code_simp

lemma ex_run_Inr: "\<exists>rs. crawl_program ex_env ''BSCS'' ''1'' = Inr rs"
  using ex_run by (cases "crawl_program ex_env ''BSCS'' ''1''") auto

section \<open>Claims\<close>

text \<open>
  C1. In the sweep of the whole document, a link whose area code contains \<open>_CE2\<close>,
  \<open>_PHL\<close>, \<open>_MEL\<close> or \<open>_C2\<close> should be classified \<open>extra_attribute\<close>, as the
  rule set for the links of a zone classifies it. The sweep has a rule set of its own
  (lines 392 to 406) that never yields \<open>extra_attribute\<close>: the area code \<open>BSCS_CE2\<close>
  is \<open>core\<close> in the sweep and \<open>extra_attribute\<close> in a zone, \<open>BSCS_PHL\<close> is \<open>required\<close>
  in the sweep and \<open>extra_attribute\<close> in a zone, and on the example page the course
  that only the sweep reaches, through the link \<open>P_AREA=BSCS_CE2\<close>, is stored as
  \<open>core\<close>.
\<close>

theorem sweep_classifies_ce2_as_core:
  "classify_fallback ''BSCS_CE2'' = ''core'' \<and> classify_link ''BSCS_CE2'' = ''extra_attribute'' \<and>
   classify_fallback ''BSCS_PHL'' = ''required'' \<and> classify_link ''BSCS_PHL'' = ''extra_attribute'' \<and>
   map_sum id (map (\<lambda>r. (Major r, Code r, EL_Type r))) (crawl_program ex_env ''BSCS'' ''1'')
     = Inr [(''CS'', ''201'', ''required''), (''MATH'', ''101'', ''required''),
            (''MATH'', ''306'', ''core'')]"
  by code_simp

text \<open>
  C2, as stated, fails: on a page where the label is followed by \<open>value1\<close>, a break,
  \<open>value2\<close>, a break and more text, the extractor returns \<open>value1 value2\<close>, not
  \<open>value1\<close>.
\<close>

theorem extract_value1_counterexample:
  "extract_detail_text ex_detail ''Prerequisites'' = ''value1 value2'' \<and>
   extract_detail_text ex_detail ''Prerequisites'' \<noteq> ''value1''"
  by code_simp

text \<open>
  C2, amended. When the first \<open>span\<close> whose text contains the label is followed, in
  sibling order, by the text \<open>value1\<close>, a line break, the text \<open>value2\<close>, a second line
  break and any trailing content, the extractor returns the trimmed \<open>value1\<close> and the
  trimmed \<open>value2\<close>, those of them that are not empty, joined with one space: the text
  on both sides of the first break is collected, and collection stops at the second
  break whatever follows it.
\<close>

theorem extract_up_to_second_break:
  assumes "find_with_string ''span'' (str_in label) ([], soup) = Some span"
    and "map snd (next_siblings soup span)
           = NavigableString value1 # br1 # NavigableString value2 # br2 # trailing"
    and "has_name ''br'' br1" and "has_name ''br'' br2"
  shows "extract_detail_text soup label
           = str_join '' '' (filter (\<lambda>p. p \<noteq> []) [strip value1, strip value2])"
proof -
  have "collect_parts [] False (NavigableString value1 # br1 # NavigableString value2 # br2 # trailing)
          = [strip value1, strip value2]"
    using assms(3,4) by simp
  with assms(1,2) have "extract_detail_text soup label
      = strip (str_join '' '' (filter (\<lambda>p. p \<noteq> []) [strip value1, strip value2]))"
    by (simp add: extract_detail_text_def)
  then show ?thesis by (simp only: strip_join_two)
qed

theorem extract_up_to_second_break_witness:
  "find_with_string ''span'' (str_in ''Prerequisites'') ([], ex_detail)
     = Some ([0, 0], Tag ''span'' [] [NavigableString ''Prerequisites: '']) \<and>
   extract_detail_text ex_detail ''Prerequisites'' = ''value1 value2''"
proof -
  let ?span = "([0, 0], Tag ''span'' [] [NavigableString ''Prerequisites: ''])"
  have f: "find_with_string ''span'' (str_in ''Prerequisites'') ([], ex_detail) = Some ?span"
    by code_simp
  have n: "map snd (next_siblings ex_detail ?span)
      = NavigableString ''value1'' # Tag ''br'' [] [] # NavigableString '' value2 ''
        # Tag ''br'' [] [] # [NavigableString ''trailing'']"
    by code_simp
  have b: "has_name ''br'' (Tag ''br'' [] [])" by simp
  have v: "str_join '' '' (filter (\<lambda>p. p \<noteq> []) [strip ''value1'', strip '' value2 ''])
      = ''value1 value2''" by code_simp
  from extract_up_to_second_break [OF f n b b] v f show ?thesis by simp
qed

text \<open>
  C3, as stated, fails: when the request for one expand link fails, here the link that
  the sweep of the whole document follows, the run returns the error and no record
  list, although the zone pass before it had collected two records.
\<close>

theorem fetch_failure_counterexample:
  "get_soup ex_env_down (urljoin ex_env_down BASE ex_ce2_href) = Inl RequestError \<and>
   map_sum id (\<lambda>st. map Major (results st))
     (zone_loop ex_env_down ex_page (select_a_name ex_page) init_state) = Inr [''CS'', ''MATH''] \<and>
   crawl_program ex_env_down ''BSCS'' ''1'' = Inl RequestError"
  by code_simp

text \<open>
  C3, amended. A failed request for an expand link is not absorbed: \<open>crawl_list\<close> has
  no handler, and the exception leaves \<open>crawl_program\<close>. So a run returns a record list
  only if the program page was fetched, every link of every zone anchor was fetched,
  and every link of the document that carries an area code was fetched.
\<close>

theorem list_fetch_failure_aborts:
  assumes "crawl_program w code term = Inr rs"
  shows "\<exists>soup. get_soup w (program_url code term) = Inr soup \<and>
           (\<forall>a\<in>set (select_a_name soup). is_zone_anchor (name_attr_of a) \<longrightarrow>
              (\<forall>href\<in>set (zone_links soup a). \<exists>d. get_soup w (urljoin w BASE href) = Inr d)) \<and>
           (\<forall>href\<in>set (List.map_filter list_link (descendants ([], soup))).
              area_search href \<noteq> None \<longrightarrow> (\<exists>d. get_soup w (urljoin w BASE href) = Inr d))"
proof -
  from crawl_program_Inr [OF assms] obtain soup st where
    soup: "get_soup w (program_url code term) = Inr soup" and st: "crawl_passes w soup = Inr st"
    by blast
  from st obtain st1 where
    z: "zone_loop w soup (select_a_name soup) init_state = Inr st1"
    and s: "sweep w (List.map_filter list_link (descendants ([], soup))) st1 = Inr st"
    by (auto simp: crawl_passes_def on_ok_Inr_iff)
  from zone_loop_fetched [OF z] sweep_fetched [OF s] soup show ?thesis by blast
qed

theorem list_fetch_failure_aborts_witness:
  "\<exists>rs. crawl_program ex_env ''BSCS'' ''1'' = Inr rs \<and>
     (\<exists>d. get_soup ex_env (urljoin ex_env BASE ex_ce2_href) = Inr d)"
proof -
  from ex_run_Inr obtain rs where rs: "crawl_program ex_env ''BSCS'' ''1'' = Inr rs" ..
  have p: "get_soup ex_env (program_url ''BSCS'' ''1'') = Inr ex_page" by code_simp
  have l: "ex_ce2_href \<in> set (List.map_filter list_link (descendants ([], ex_page)))"
    by code_simp
  have a: "area_search ex_ce2_href \<noteq> None" by code_simp
  from list_fetch_failure_aborts [OF rs] p l a
  have "\<exists>d. get_soup ex_env (urljoin ex_env BASE ex_ce2_href) = Inr d" by auto
  with rs show ?thesis by blast
qed







text \<open>
  C7. For every heading title, the heading-text classifier returns \<open>university\<close> when the
  lower-cased title contains both "university" and "courses"; otherwise \<open>required\<close> when it
  contains "required" and "courses"; otherwise \<open>core\<close> when it contains "core" and
  "elective"; otherwise \<open>area\<close> when it contains "area" and "elective"; otherwise \<open>free\<close>
  when it contains "free" and "elective"; otherwise \<open>university\<close> when it is exactly
  "total"; otherwise \<open>unknown\<close>. Containment is stated with \<open>sublist\<close>: the word occurs
  as a contiguous block of the lower-cased title.
\<close>

theorem map_category_spec:
  "map_category title =
     (if sublist ''university'' (lower title) \<and> sublist ''courses'' (lower title)
        then ''university''
      else if sublist ''required'' (lower title) \<and> sublist ''courses'' (lower title)
        then ''required''
      else if sublist ''core'' (lower title) \<and> sublist ''elective'' (lower title)
        then ''core''
      else if sublist ''area'' (lower title) \<and> sublist ''elective'' (lower title)
        then ''area''
      else if sublist ''free'' (lower title) \<and> sublist ''elective'' (lower title)
        then ''free''
      else if lower title = ''total'' then ''university''
      else ''unknown'')"
  unfolding map_category_def Let_def sublist_def str_in_iff by (rule refl)

theorem map_category_spec_witness:
  "map_category ''Core Electives'' = ''core'' \<and> map_category ''Total'' = ''university''"
proof -
  have l1: "lower ''Core Electives'' = ''core electives''"
    by (simp add: lower_def lower_char_def upper_chars_def lower_chars_def)
  have l2: "lower ''Total'' = ''total''"
    by (simp add: lower_def lower_char_def upper_chars_def lower_chars_def)
  have a: "map_category ''Core Electives'' = ''core''"
    unfolding map_category_spec [of "''Core Electives''"] l1
    by (simp add: sublist_code prefix_code)
  have b: "map_category ''Total'' = ''university''"
    unfolding map_category_spec [of "''Total''"] l2
    by (simp add: sublist_code prefix_code)
  from a b show ?thesis ..
qed

text \<open>
  C8. For every run that returns a record list, the list is the merged record set with
  the details of \<open>get_course_details\<close> added to exactly the records whose \<open>EL_Type\<close>
  is \<open>required\<close> or \<open>university\<close>, or whose \<open>EL_Type\<close> is \<open>core\<close> or \<open>area\<close> and
  whose \<open>Major\<close> is \<open>CS\<close> or \<open>DSA\<close>. A record of the result carries the three detail
  fields if it is one of these, and none of them otherwise.
\<close>

theorem detail_fetch_selection:
  assumes "crawl_program w code term = Inr rs"
  shows "\<exists>soup st. get_soup w (program_url code term) = Inr soup \<and> crawl_passes w soup = Inr st \<and>
           rs = map (\<lambda>row.
                  if EL_Type row = ''required'' \<or> EL_Type row = ''university'' \<or>
                     (EL_Type row \<in> {''core'', ''area''} \<and> Major row \<in> {''CS'', ''DSA''})
                  then update_row row (get_course_details w term (Major row) (Code row))
                  else row) (results st) \<and>
           (\<forall>r\<in>set rs.
              (Prerequisites r \<noteq> None \<and> Corequisites r \<noteq> None \<and> Last_Offered_Term r \<noteq> None
                 \<longleftrightarrow> EL_Type r = ''required'' \<or> EL_Type r = ''university'' \<or>
                     (EL_Type r \<in> {''core'', ''area''} \<and> Major r \<in> {''CS'', ''DSA''})) \<and>
              (Prerequisites r = None \<and> Corequisites r = None \<and> Last_Offered_Term r = None
                 \<longleftrightarrow> \<not> (EL_Type r = ''required'' \<or> EL_Type r = ''university'' \<or>
                     (EL_Type r \<in> {''core'', ''area''} \<and> Major r \<in> {''CS'', ''DSA''}))))"
proof -
  from crawl_program_Inr [OF assms] obtain soup st where
    soup: "get_soup w (program_url code term) = Inr soup" and st: "crawl_passes w soup = Inr st"
    and rs: "rs = fetch_details w term (results st)" by blast
  have m: "rs = map (\<lambda>row.
                  if EL_Type row = ''required'' \<or> EL_Type row = ''university'' \<or>
                     (EL_Type row \<in> {''core'', ''area''} \<and> Major row \<in> {''CS'', ''DSA''})
                  then update_row row (get_course_details w term (Major row) (Code row))
                  else row) (results st)"
    unfolding rs fetch_details_map wants_details_def ..
  have "\<forall>r\<in>set rs.
              (Prerequisites r \<noteq> None \<and> Corequisites r \<noteq> None \<and> Last_Offered_Term r \<noteq> None
                 \<longleftrightarrow> EL_Type r = ''required'' \<or> EL_Type r = ''university'' \<or>
                     (EL_Type r \<in> {''core'', ''area''} \<and> Major r \<in> {''CS'', ''DSA''})) \<and>
              (Prerequisites r = None \<and> Corequisites r = None \<and> Last_Offered_Term r = None
                 \<longleftrightarrow> \<not> (EL_Type r = ''required'' \<or> EL_Type r = ''university'' \<or>
                     (EL_Type r \<in> {''core'', ''area''} \<and> Major r \<in> {''CS'', ''DSA''})))"
  proof
    fix r assume "r \<in> set rs"
    with m obtain row where row: "row \<in> set (results st)"
      and r: "r = (if EL_Type row = ''required'' \<or> EL_Type row = ''university'' \<or>
                     (EL_Type row \<in> {''core'', ''area''} \<and> Major row \<in> {''CS'', ''DSA''})
                  then update_row row (get_course_details w term (Major row) (Code row))
                  else row)" by auto
    from crawl_passes_no_details [OF st row]
    have n: "Prerequisites row = None" "Corequisites row = None" "Last_Offered_Term row = None"
      by simp_all
    show "(Prerequisites r \<noteq> None \<and> Corequisites r \<noteq> None \<and> Last_Offered_Term r \<noteq> None
                 \<longleftrightarrow> EL_Type r = ''required'' \<or> EL_Type r = ''university'' \<or>
                     (EL_Type r \<in> {''core'', ''area''} \<and> Major r \<in> {''CS'', ''DSA''})) \<and>
              (Prerequisites r = None \<and> Corequisites r = None \<and> Last_Offered_Term r = None
                 \<longleftrightarrow> \<not> (EL_Type r = ''required'' \<or> EL_Type r = ''university'' \<or>
                     (EL_Type r \<in> {''core'', ''area''} \<and> Major r \<in> {''CS'', ''DSA''})))"
    proof (cases "EL_Type row = ''required'' \<or> EL_Type row = ''university'' \<or>
                     (EL_Type row \<in> {''core'', ''area''} \<and> Major row \<in> {''CS'', ''DSA''})")
      case True
      with r have "r = update_row row (get_course_details w term (Major row) (Code row))"
        by (simp only: if_True)
      with True show ?thesis by (simp add: update_row_def)
    next
      case False
      with r have "r = row" by (simp only: if_False)
      with False n show ?thesis by simp
    qed
  qed
  with soup st m show ?thesis by blast
qed

theorem detail_fetch_selection_witness:
  "\<exists>rs. crawl_program ex_env ''BSCS'' ''1'' = Inr rs \<and>
     map (\<lambda>r. (EL_Type r, Major r, Prerequisites r)) rs
       = [(''required'', ''CS'', Some []), (''required'', ''MATH'', Some []),
          (''core'', ''MATH'', None)] \<and>
     (\<exists>soup st. get_soup ex_env (program_url ''BSCS'' ''1'') = Inr soup \<and>
        crawl_passes ex_env soup = Inr st)"
proof -
  from ex_run_Inr obtain rs where rs: "crawl_program ex_env ''BSCS'' ''1'' = Inr rs" ..
  from ex_run have "map (\<lambda>r. (Major r, Code r, EL_Type r, Prerequisites r)) rs
      = [(''CS'', ''201'', ''required'', Some []), (''MATH'', ''101'', ''required'', Some []),
         (''MATH'', ''306'', ''core'', None)]"
    unfolding rs by simp
  then have "map (\<lambda>q. (fst (snd (snd q)), fst q, snd (snd (snd q))))
                (map (\<lambda>r. (Major r, Code r, EL_Type r, Prerequisites r)) rs)
      = [(''required'', ''CS'', Some []), (''required'', ''MATH'', Some []),
         (''core'', ''MATH'', None)]"
    by (simp only: list.map fst_conv snd_conv)
  then have m: "map (\<lambda>r. (EL_Type r, Major r, Prerequisites r)) rs
      = [(''required'', ''CS'', Some []), (''required'', ''MATH'', Some []),
         (''core'', ''MATH'', None)]"
    by (simp only: map_map comp_def fst_conv snd_conv)
  from detail_fetch_selection [OF rs] obtain soup st where
    c: "get_soup ex_env (program_url ''BSCS'' ''1'') = Inr soup \<and>
        crawl_passes ex_env soup = Inr st \<and>
        rs = map (\<lambda>row.
                  if EL_Type row = ''required'' \<or> EL_Type row = ''university'' \<or>
                     (EL_Type row \<in> {''core'', ''area''} \<and> Major row \<in> {''CS'', ''DSA''})
                  then update_row row (get_course_details ex_env ''1'' (Major row) (Code row))
                  else row) (results st) \<and>
           (\<forall>r\<in>set rs.
              (Prerequisites r \<noteq> None \<and> Corequisites r \<noteq> None \<and> Last_Offered_Term r \<noteq> None
                 \<longleftrightarrow> EL_Type r = ''required'' \<or> EL_Type r = ''university'' \<or>
                     (EL_Type r \<in> {''core'', ''area''} \<and> Major r \<in> {''CS'', ''DSA''})) \<and>
              (Prerequisites r = None \<and> Corequisites r = None \<and> Last_Offered_Term r = None
                 \<longleftrightarrow> \<not> (EL_Type r = ''required'' \<or> EL_Type r = ''university'' \<or>
                     (EL_Type r \<in> {''core'', ''area''} \<and> Major r \<in> {''CS'', ''DSA''}))))"
    by (elim exE)
  from c have s1: "get_soup ex_env (program_url ''BSCS'' ''1'') = Inr soup" by (rule conjunct1)
  from c have s2: "crawl_passes ex_env soup = Inr st" by (elim conjE)
  show ?thesis
  proof (intro exI conjI)
    show "crawl_program ex_env ''BSCS'' ''1'' = Inr rs" by (rule rs)
    show "map (\<lambda>r. (EL_Type r, Major r, Prerequisites r)) rs
      = [(''required'', ''CS'', Some []), (''required'', ''MATH'', Some []),
         (''core'', ''MATH'', None)]" by (rule m)
    show "get_soup ex_env (program_url ''BSCS'' ''1'') = Inr soup" by (rule s1)
    show "crawl_passes ex_env soup = Inr st" by (rule s2)
  qed
qed

text \<open>
  C9. For every table and category the row parser returns a record list, never an
  error. It reads the data rows of the table: all rows, without the first exactly when
  the first has header cells. The records it emits are, in order, those of the data
  rows that have at least five cells and a non-empty identity cell; every other row is
  passed over. The \<open>Major\<close> of each record is the first whitespace-separated token of
  its identity cell and its \<open>Code\<close> is the remaining tokens joined with no separator.
\<close>

theorem parse_table_rows:
  "\<exists>rs. parse_table table category = Inr rs \<and>
        map (\<lambda>r. (Major r, Code r)) rs = map spec_identity (filter row_accepted (data_rows table))"
  using parse_rows_spec [of category "data_rows table" "[]"]
  by (simp add: parse_table_data_rows)

theorem parse_table_rows_witness:
  "\<exists>rs. parse_table ex_table ''required'' = Inr rs \<and>
     map (\<lambda>r. (Major r, Code r)) rs = [(''CS'', ''201'')]"
proof -
  have "map spec_identity (filter row_accepted (data_rows ex_table)) = [(''CS'', ''201'')]"
    by code_simp
  with parse_table_rows [of ex_table "''required''"] show ?thesis by simp
qed



end
